theory Spec2Isabelle
  imports Main "HOL-Library.Char_ord" "HOL-Library.List_Lexorder"
    "HOL-Library.Code_Target_Nat"
begin

section \<open>Data model (src/unnamed/part_001, lib/types)\<close>

datatype UpdateStatus = GA | Preview | Deprecated | Retired | New

datatype DomainCategory =
    Compute | Networking | Storage | Databases | AI_Machine_Learning | Security
  | Developer_Tools | Integration | Analytics | Containers | Management | Web | IoT
  | Mixed_Reality

text \<open>
  At run time a \<open>DomainCategory\<close> is the string literal of its declaration; the default
  \<open>Array.prototype.sort\<close> compares these strings by code unit.
\<close>

fun domainName :: "DomainCategory \<Rightarrow> string" where
  "domainName Compute = ''Compute''"
| "domainName Networking = ''Networking''"
| "domainName Storage = ''Storage''"
| "domainName Databases = ''Databases''"
| "domainName AI_Machine_Learning = ''AI + Machine Learning''"
| "domainName Security = ''Security''"
| "domainName Developer_Tools = ''Developer Tools''"
| "domainName Integration = ''Integration''"
| "domainName Analytics = ''Analytics''"
| "domainName Containers = ''Containers''"
| "domainName Management = ''Management''"
| "domainName Web = ''Web''"
| "domainName IoT = ''IoT''"
| "domainName Mixed_Reality = ''Mixed Reality''"

text \<open>
  \<open>interface AzureUpdate\<close>. The field \<open>id\<close> is called \<open>update_id\<close> here, the optional
  \<open>link\<close> is an option, and \<open>date\<close> stays the string the data source supplies.
\<close>

record AzureUpdate =
  update_id :: string
  title :: string
  description :: string
  domain :: "DomainCategory list"
  status :: UpdateStatus
  date :: string
  link :: "string option"

text \<open>
  \<open>useKV\<close> may hand out \<open>undefined\<close>; every use in \<open>App\<close> reads \<open>(updates || [])\<close>.
  An array, also an empty one, is truthy.
\<close>

definition orEmpty :: "'a list option \<Rightarrow> 'a list" where
  "orEmpty updates = (case updates of None \<Rightarrow> [] | Some us \<Rightarrow> us)"

section \<open>Strings of the host language\<close>

text \<open>
  A string is a list of code units; the model covers the code units U+0000 to U+00FF, one
  \<open>char\<close> each. In that range \<open>String.prototype.toLowerCase\<close> maps A to Z and U+00C0 to
  U+00DE (without the multiplication sign U+00D7) 32 places up and leaves every other code
  unit alone; \<open>String.prototype.trim\<close> removes TAB, LF, VT, FF, CR, SPACE and NO-BREAK SPACE
  from both ends.
\<close>

definition toLowerChar :: "char \<Rightarrow> char" where
  "toLowerChar c =
     (let n = (of_char c :: nat)
      in if (65 \<le> n \<and> n \<le> 90) \<or> (192 \<le> n \<and> n \<le> 222 \<and> n \<noteq> 215)
         then char_of (n + 32) else c)"

definition toLowerCase :: "string \<Rightarrow> string" where
  "toLowerCase s = map toLowerChar s"

definition isWhiteSpace :: "char \<Rightarrow> bool" where
  "isWhiteSpace c = ((of_char c :: nat) \<in> {9, 10, 11, 12, 13, 32, 160})"

definition trim :: "string \<Rightarrow> string" where
  "trim s = rev (dropWhile isWhiteSpace (rev (dropWhile isWhiteSpace s)))"

text \<open>\<open>s.includes(sub)\<close>: \<open>sub\<close> occurs in \<open>s\<close> as a contiguous run of code units.\<close>

fun startsWith :: "string \<Rightarrow> string \<Rightarrow> bool" where
  "startsWith s [] = True"
| "startsWith [] (c # sub) = False"
| "startsWith (a # s) (c # sub) = (a = c \<and> startsWith s sub)"

fun includesStr :: "string \<Rightarrow> string \<Rightarrow> bool" where
  "includesStr [] sub = (sub = [])"
| "includesStr (a # s) sub = (startsWith (a # s) sub \<or> includesStr s sub)"

section \<open>Category derivation (App.tsx, allDomains)\<close>

text \<open>
  A \<open>Set\<close> iterates in insertion order, so it is a list without repetitions to which
  \<open>add\<close> appends what is new.
\<close>

definition set_add :: "'a list \<Rightarrow> 'a \<Rightarrow> 'a list" where
  "set_add s x = (if x \<in> set s then s else s @ [x])"

definition allDomains :: "AzureUpdate list option \<Rightarrow> DomainCategory list" where
  "allDomains updates =
     sort_key domainName
       (foldl (\<lambda>domains update. foldl set_add domains (domain update)) [] (orEmpty updates))"

section \<open>Dates of the host language\<close>

text \<open>
  A \<open>Date\<close> holds a time value, an integral number of milliseconds since the epoch of at
  most 8.64e15 in absolute value, or NaN (an invalid date), which is \<open>None\<close> here.
\<close>

type_synonym Date = "int option"

definition msPerDay :: int where
  "msPerDay = 86400000"

definition Day :: "int \<Rightarrow> int" where
  "Day t = t div msPerDay"

definition TimeWithinDay :: "int \<Rightarrow> int" where
  "TimeWithinDay t = t mod msPerDay"

definition WeekDay :: "int \<Rightarrow> int" where
  "WeekDay t = (Day t + 4) mod 7"

text \<open>
  The proleptic Gregorian calendar: year, month (1 to 12) and day of the month of a day
  number, counting in years that begin on the first of March so that the leap day comes
  last, and the day number of a calendar date.
\<close>

definition civil_from_days :: "int \<Rightarrow> int \<times> int \<times> int" where
  "civil_from_days z0 =
     (let z = z0 + 719468;
          era = z div 146097;
          doe = z mod 146097;
          c = min 3 (doe div 36524);
          r1 = doe - 36524 * c;
          q = r1 div 1461;
          r2 = r1 mod 1461;
          a = min 3 (r2 div 365);
          doy = r2 - 365 * a;
          yoe = 100 * c + 4 * q + a;
          mp = (5 * doy + 2) div 153;
          d = doy - (153 * mp + 2) div 5 + 1;
          m = (if mp < 10 then mp + 3 else mp - 9);
          y = yoe + era * 400 + (if m \<le> 2 then 1 else 0)
      in (y, m, d))"

definition days_from_civil :: "int \<Rightarrow> int \<Rightarrow> int \<Rightarrow> int" where
  "days_from_civil y0 m d =
     (let y = (if m \<le> 2 then y0 - 1 else y0);
          era = y div 400;
          yoe = y mod 400;
          doy = (153 * (if m > 2 then m - 3 else m + 9) + 2) div 5 + d - 1;
          doe = yoe * 365 + yoe div 4 - yoe div 100 + doy
      in era * 146097 + doe - 719468)"

definition YearFromTime :: "int \<Rightarrow> int" where
  "YearFromTime t = fst (civil_from_days (Day t))"

definition MonthFromTime :: "int \<Rightarrow> int" where
  \<comment> \<open>0 is January\<close>
  "MonthFromTime t = fst (snd (civil_from_days (Day t))) - 1"

definition DateFromTime :: "int \<Rightarrow> int" where
  "DateFromTime t = snd (snd (civil_from_days (Day t)))"

definition MakeDay :: "int \<Rightarrow> int \<Rightarrow> int \<Rightarrow> int" where
  \<comment> \<open>a month outside 0 to 11 carries into the year, a day outside the month into the
      neighbouring months\<close>
  "MakeDay year month dt = days_from_civil (year + month div 12) (month mod 12 + 1) 1 + dt - 1"

definition MakeTime :: "int \<Rightarrow> int \<Rightarrow> int \<Rightarrow> int \<Rightarrow> int" where
  "MakeTime hour minute sec ms = hour * 3600000 + minute * 60000 + sec * 1000 + ms"

definition MakeDate :: "int \<Rightarrow> int \<Rightarrow> int" where
  "MakeDate day time = day * msPerDay + time"

text \<open>
  The host's time zone: the offset of local time from UTC, in milliseconds, before the
  first transition, and the transitions in ascending order, each with its instant and the
  offset from then on (daylight saving time begins or ends). \<open>offsetAt\<close> is the offset in
  force at an instant. \<open>offsetLocal\<close> is the offset by which a local time is read: a local
  time that a transition repeats or skips is read with the offset before the transition.
\<close>

record TimeZone =
  baseOffset :: int
  transitions :: "(int \<times> int) list"

definition offsetAt :: "TimeZone \<Rightarrow> int \<Rightarrow> int" where
  "offsetAt zone t =
     foldl (\<lambda>off tr. if fst tr \<le> t then snd tr else off) (baseOffset zone) (transitions zone)"

fun localOffsetFrom :: "int \<Rightarrow> (int \<times> int) list \<Rightarrow> int \<Rightarrow> int" where
  "localOffsetFrom off [] lt = off"
| "localOffsetFrom off (tr # rest) lt =
     (if lt < fst tr + max off (snd tr) then off else localOffsetFrom (snd tr) rest lt)"

definition offsetLocal :: "TimeZone \<Rightarrow> int \<Rightarrow> int" where
  "offsetLocal zone lt = localOffsetFrom (baseOffset zone) (transitions zone) lt"

definition LocalTime :: "TimeZone \<Rightarrow> int \<Rightarrow> int" where
  "LocalTime zone t = t + offsetAt zone t"

definition UTC :: "TimeZone \<Rightarrow> int \<Rightarrow> int" where
  "UTC zone lt = lt - offsetLocal zone lt"

definition maxTime :: int where
  "maxTime = 8640000000000000"

definition TimeClip :: "int \<Rightarrow> Date" where
  "TimeClip t = (if \<bar>t\<bar> \<le> maxTime then Some t else None)"

text \<open>
  \<open>new Date(s)\<close> for a string \<open>s\<close>: the host's parser, a parameter \<open>parse\<close> of everything
  below, gives a time value or fails; the constructor clips it.
\<close>

definition newDate :: "(string \<Rightarrow> int option) \<Rightarrow> string \<Rightarrow> Date" where
  "newDate parse s = (case parse s of None \<Rightarrow> None | Some t \<Rightarrow> TimeClip t)"

text \<open>The methods of \<open>Date.prototype\<close> that the component calls; NaN goes through them.\<close>

definition getDay :: "TimeZone \<Rightarrow> Date \<Rightarrow> int option" where
  "getDay zone this = map_option (\<lambda>t. WeekDay (LocalTime zone t)) this"

definition getDate :: "TimeZone \<Rightarrow> Date \<Rightarrow> int option" where
  "getDate zone this = map_option (\<lambda>t. DateFromTime (LocalTime zone t)) this"

definition setDate :: "TimeZone \<Rightarrow> int option \<Rightarrow> Date \<Rightarrow> Date" where
  "setDate zone dt this =
     (case (this, dt) of
        (Some t, Some d) \<Rightarrow>
          (let lt = LocalTime zone t;
               newDate = MakeDate (MakeDay (YearFromTime lt) (MonthFromTime lt) d)
                                  (TimeWithinDay lt)
           in TimeClip (UTC zone newDate))
      | _ \<Rightarrow> None)"

definition setHours ::
  "TimeZone \<Rightarrow> int \<Rightarrow> int \<Rightarrow> int \<Rightarrow> int \<Rightarrow> Date \<Rightarrow> Date" where
  "setHours zone hour minute sec ms this =
     (case this of
        Some t \<Rightarrow>
          TimeClip (UTC zone (MakeDate (Day (LocalTime zone t)) (MakeTime hour minute sec ms)))
      | None \<Rightarrow> None)"

text \<open>Comparing two dates with \<open>>=\<close> or \<open><=\<close> compares their time values; NaN fails.\<close>

definition date_ge :: "Date \<Rightarrow> Date \<Rightarrow> bool" where
  "date_ge a b = (case (a, b) of (Some x, Some y) \<Rightarrow> x \<ge> y | _ \<Rightarrow> False)"

definition date_le :: "Date \<Rightarrow> Date \<Rightarrow> bool" where
  "date_le a b = (case (a, b) of (Some x, Some y) \<Rightarrow> x \<le> y | _ \<Rightarrow> False)"

subsection \<open>Formatting\<close>

definition digitChar :: "nat \<Rightarrow> char" where
  "digitChar d = ''0123456789'' ! (d mod 10)"

fun pad :: "nat \<Rightarrow> nat \<Rightarrow> string" where
  \<comment> \<open>the last \<open>w\<close> decimal digits, zeros in front\<close>
  "pad 0 n = []"
| "pad (Suc w) n = pad w (n div 10) @ [digitChar n]"

fun decimal :: "nat \<Rightarrow> string" where
  "decimal n = (if n < 10 then [digitChar n] else decimal (n div 10) @ [digitChar n])"

declare decimal.simps [simp del]

datatype js_error = RangeError

text \<open>
  \<open>toISOString\<close> throws on an invalid date and otherwise prints the UTC fields as
  \<open>YYYY-MM-DDTHH:mm:ss.sssZ\<close>, the year with a sign and six digits outside 0 to 9999.
\<close>

definition isoYear :: "int \<Rightarrow> string" where
  "isoYear y =
     (if 0 \<le> y \<and> y \<le> 9999 then pad 4 (nat y)
      else (if y < 0 then ''-'' else ''+'') @ pad 6 (nat \<bar>y\<bar>))"

definition toISOString :: "Date \<Rightarrow> js_error + string" where
  "toISOString this =
     (case this of
        None \<Rightarrow> Inl RangeError
      | Some t \<Rightarrow>
          (let tw = TimeWithinDay t
           in Inr (isoYear (YearFromTime t) @ ''-'' @ pad 2 (nat (MonthFromTime t + 1)) @ ''-''
                   @ pad 2 (nat (DateFromTime t)) @ ''T'' @ pad 2 (nat (tw div 3600000)) @ '':''
                   @ pad 2 (nat (tw div 60000 mod 60)) @ '':'' @ pad 2 (nat (tw div 1000 mod 60))
                   @ ''.'' @ pad 3 (nat (tw mod 1000)) @ ''Z'')))"

text \<open>
  \<open>toLocaleDateString('en-US', options)\<close> for the three option sets in use. It prints the
  local fields, an invalid date as \<open>Invalid Date\<close>, and a year \<open>y\<close> below 1 as \<open>1 - y\<close>.
\<close>

definition monthLong :: "int \<Rightarrow> string" where
  "monthLong m =
     [''January'', ''February'', ''March'', ''April'', ''May'', ''June'', ''July'',
      ''August'', ''September'', ''October'', ''November'', ''December''] ! nat m"

definition monthShort :: "int \<Rightarrow> string" where
  "monthShort m = take 3 (monthLong m)"

definition yearNumeric :: "int \<Rightarrow> string" where
  "yearNumeric y = decimal (nat (if y \<le> 0 then 1 - y else y))"

definition fmtMonthDay :: "TimeZone \<Rightarrow> Date \<Rightarrow> string" where
  \<comment> \<open>\<open>{ month: 'short', day: 'numeric' }\<close>\<close>
  "fmtMonthDay zone this =
     (case this of
        None \<Rightarrow> ''Invalid Date''
      | Some t \<Rightarrow>
          (let lt = LocalTime zone t
           in monthShort (MonthFromTime lt) @ '' '' @ decimal (nat (DateFromTime lt))))"

definition fmtMonthDayYear :: "TimeZone \<Rightarrow> Date \<Rightarrow> string" where
  \<comment> \<open>\<open>{ month: 'short', day: 'numeric', year: 'numeric' }\<close>\<close>
  "fmtMonthDayYear zone this =
     (case this of
        None \<Rightarrow> ''Invalid Date''
      | Some t \<Rightarrow>
          (let lt = LocalTime zone t
           in monthShort (MonthFromTime lt) @ '' '' @ decimal (nat (DateFromTime lt)) @ '', ''
              @ yearNumeric (YearFromTime lt)))"

definition fmtMonthYear :: "TimeZone \<Rightarrow> Date \<Rightarrow> string" where
  \<comment> \<open>\<open>{ year: 'numeric', month: 'long' }\<close>\<close>
  "fmtMonthYear zone this =
     (case this of
        None \<Rightarrow> ''Invalid Date''
      | Some t \<Rightarrow>
          (let lt = LocalTime zone t
           in monthLong (MonthFromTime lt) @ '' '' @ yearNumeric (YearFromTime lt)))"

text \<open>
  A parser for the date-only form \<open>YYYY-MM-DD\<close>, which the host reads as midnight UTC. It
  stands for the host's parser in the examples; it rejects every other form.
\<close>

definition digitVal :: "char \<Rightarrow> nat option" where
  "digitVal c =
     (let n = (of_char c :: nat) in if 48 \<le> n \<and> n \<le> 57 then Some (n - 48) else None)"

fun number :: "string \<Rightarrow> nat option" where
  "number [] = None"
| "number cs =
     foldl (\<lambda>acc c. case (acc, digitVal c) of (Some n, Some d) \<Rightarrow> Some (10 * n + d) | _ \<Rightarrow> None)
       (Some 0) cs"

definition parseISODate :: "string \<Rightarrow> int option" where
  "parseISODate s =
     (if length s = 10 \<and> s ! 4 = CHR ''-'' \<and> s ! 7 = CHR ''-'' then
        (case (number (take 4 s), number (take 2 (drop 5 s)), number (drop 8 s)) of
           (Some y, Some m, Some d) \<Rightarrow>
             (if 1 \<le> m \<and> m \<le> 12 \<and> 1 \<le> d \<and> d \<le> 31
              then Some (MakeDate (MakeDay (int y) (int m - 1) (int d)) 0) else None)
         | _ \<Rightarrow> None)
      else None)"



section \<open>Week buckets (App.tsx, getWeekRange and availableWeeks)\<close>

text \<open>Arithmetic on numbers that may be NaN.\<close>

definition num_sub :: "int option \<Rightarrow> int option \<Rightarrow> int option" where
  "num_sub a b = (case (a, b) of (Some x, Some y) \<Rightarrow> Some (x - y) | _ \<Rightarrow> None)"

definition num_add :: "int option \<Rightarrow> int option \<Rightarrow> int option" where
  "num_add a b = (case (a, b) of (Some x, Some y) \<Rightarrow> Some (x + y) | _ \<Rightarrow> None)"

record WeekRange =
  start :: Date
  endw :: Date
  label :: string

definition getWeekRange :: "TimeZone \<Rightarrow> Date \<Rightarrow> WeekRange" where
  "getWeekRange zone d =
     (let day = getDay zone d;
          diff = num_sub (getDate zone d) day;
          startD = setHours zone 0 0 0 0 (setDate zone diff d);
          endD = setHours zone 23 59 59 999
                   (setDate zone (num_add (getDate zone startD) (Some 6)) startD);
          startStr = fmtMonthDay zone startD;
          endStr = fmtMonthDayYear zone endD
      in \<lparr>start = startD, endw = endD, label = startStr @ '' - '' @ endStr\<rparr>)"

record WeekBucket = WeekRange +
  key :: string

text \<open>
  The \<open>Map\<close> from week key to week is a list of pairs in insertion order. The loop over
  the updates stops with the exception of \<open>toISOString\<close> at the first record whose week
  start is invalid.
\<close>

fun collectWeeks ::
  "(string \<Rightarrow> int option) \<Rightarrow> TimeZone \<Rightarrow> (string \<times> WeekRange) list \<Rightarrow> AzureUpdate list
     \<Rightarrow> js_error + (string \<times> WeekRange) list" where
  "collectWeeks parse zone weeks [] = Inr weeks"
| "collectWeeks parse zone weeks (update # rest) =
     (let week = getWeekRange zone (newDate parse (date update))
      in case toISOString (start week) of
           Inl e \<Rightarrow> Inl e
         | Inr weekKey \<Rightarrow>
             collectWeeks parse zone
               (if weekKey \<notin> fst ` set weeks then weeks @ [(weekKey, week)] else weeks) rest)"

text \<open>
  The comparator \<open>b.start - a.start\<close> orders by descending start; the sort is stable.
\<close>

definition getTime :: "Date \<Rightarrow> int" where
  \<comment> \<open>no invalid start reaches the sort: \<open>toISOString\<close> has thrown before\<close>
  "getTime this = (case this of Some t \<Rightarrow> t | None \<Rightarrow> 0)"

definition toBucket :: "string \<times> WeekRange \<Rightarrow> WeekBucket" where
  "toBucket e = \<lparr>start = start (snd e), endw = endw (snd e), label = label (snd e), key = fst e\<rparr>"

definition availableWeeks ::
  "(string \<Rightarrow> int option) \<Rightarrow> TimeZone \<Rightarrow> AzureUpdate list option \<Rightarrow> js_error + WeekBucket list" where
  "availableWeeks parse zone updates =
     (case collectWeeks parse zone [] (orEmpty updates) of
        Inl e \<Rightarrow> Inl e
      | Inr weeks \<Rightarrow> Inr (map toBucket (sort_key (\<lambda>e. - getTime (start (snd e))) weeks)))"

section \<open>Filtering (App.tsx, filteredUpdates)\<close>

definition matchesSearch :: "string \<Rightarrow> AzureUpdate \<Rightarrow> bool" where
  "matchesSearch searchQuery update =
     (trim searchQuery = '''' \<or>
      includesStr (toLowerCase (title update)) (toLowerCase searchQuery) \<or>
      includesStr (toLowerCase (description update)) (toLowerCase searchQuery))"

definition matchesDomain :: "DomainCategory option \<Rightarrow> AzureUpdate \<Rightarrow> bool" where
  "matchesDomain selectedDomain update =
     (case selectedDomain of None \<Rightarrow> True | Some d \<Rightarrow> d \<in> set (domain update))"

definition matchesWeek ::
  "(string \<Rightarrow> int option) \<Rightarrow> string \<Rightarrow> WeekBucket list \<Rightarrow> AzureUpdate \<Rightarrow> bool" where
  "matchesWeek parse selectedWeek weeks update =
     (if selectedWeek \<noteq> ''all'' then
        (let updateDate = newDate parse (date update)
         in case find (\<lambda>w. key w = selectedWeek) weeks of
              Some selectedWeekData \<Rightarrow>
                date_ge updateDate (start selectedWeekData) \<and>
                date_le updateDate (endw selectedWeekData)
            | None \<Rightarrow> True)
      else True)"

definition filteredUpdates ::
  "(string \<Rightarrow> int option) \<Rightarrow> AzureUpdate list option \<Rightarrow> string \<Rightarrow> DomainCategory option
     \<Rightarrow> string \<Rightarrow> WeekBucket list \<Rightarrow> AzureUpdate list" where
  "filteredUpdates parse updates searchQuery selectedDomain selectedWeek weeks =
     filter (\<lambda>update. matchesSearch searchQuery update \<and> matchesDomain selectedDomain update \<and>
                      matchesWeek parse selectedWeek weeks update)
       (orEmpty updates)"

section \<open>Month groups (App.tsx, groupedByMonth)\<close>

text \<open>
  The object \<open>groups\<close> lists its keys in the order of their creation (a month label is
  never an array index), so it is a list of pairs; \<open>push\<close> appends to the group of a key
  and creates the group first where the key is new.
\<close>

fun pushGroup :: "string \<Rightarrow> 'a \<Rightarrow> (string \<times> 'a list) list \<Rightarrow> (string \<times> 'a list) list" where
  "pushGroup k x [] = [(k, [x])]"
| "pushGroup k x ((k', g) # groups) =
     (if k' = k then (k', g @ [x]) # groups else (k', g) # pushGroup k x groups)"

definition monthKey :: "(string \<Rightarrow> int option) \<Rightarrow> TimeZone \<Rightarrow> AzureUpdate \<Rightarrow> string" where
  "monthKey parse zone update = fmtMonthYear zone (newDate parse (date update))"

definition groupedByMonth ::
  "(string \<Rightarrow> int option) \<Rightarrow> TimeZone \<Rightarrow> AzureUpdate list \<Rightarrow> (string \<times> AzureUpdate list) list" where
  "groupedByMonth parse zone filtered =
     foldl (\<lambda>groups update. pushGroup (monthKey parse zone update) update groups) [] filtered"

section \<open>Filter state (App.tsx, handleClearFilters and hasActiveFilters)\<close>

record FilterState =
  searchQuery :: string
  selectedDomain :: "DomainCategory option"
  selectedWeek :: string
  showFilters :: bool

text \<open>
  A state setter called inside an event handler does not change the state that the
  handler sees: it queues an update. React runs the handler of an event to its end, then
  applies the queued updates in order (\<open>commit\<close>) and, unless they leave every state
  variable as it was, renders the component once, with the resulting state. A handler is
  the list of the setter calls it makes.
\<close>

datatype update_action =
    SetSearchQuery string
  | SetSelectedDomain "DomainCategory option"
  | SetSelectedWeek string
  | SetShowFilters bool

fun applyAction :: "FilterState \<Rightarrow> update_action \<Rightarrow> FilterState" where
  "applyAction s (SetSearchQuery q) = s\<lparr>searchQuery := q\<rparr>"
| "applyAction s (SetSelectedDomain d) = s\<lparr>selectedDomain := d\<rparr>"
| "applyAction s (SetSelectedWeek w) = s\<lparr>selectedWeek := w\<rparr>"
| "applyAction s (SetShowFilters b) = s\<lparr>showFilters := b\<rparr>"

definition commit :: "FilterState \<Rightarrow> update_action list \<Rightarrow> FilterState" where
  "commit s queue = foldl applyAction s queue"

text \<open>
  The mounted component: the state of its last render, and the states of all its renders
  since the mount, the oldest first. A state in this list is a state that the user can
  observe. \<open>dispatchEvent\<close> is what one event does to it.
\<close>

record Component =
  current :: FilterState
  renders :: "FilterState list"

definition dispatchEvent :: "update_action list \<Rightarrow> Component \<Rightarrow> Component" where
  "dispatchEvent handler c =
     (let s = commit (current c) handler
      in if s = current c then c else \<lparr>current = s, renders = renders c @ [s]\<rparr>)"

text \<open>
  \<open>handleClearFilters\<close> is bound to \<open>onClick\<close> of the two clear buttons and is called from
  nowhere else.
\<close>

definition handleClearFilters :: "update_action list" where
  "handleClearFilters = [SetSearchQuery '''', SetSelectedDomain None, SetSelectedWeek ''all'']"

definition hasActiveFilters :: "FilterState \<Rightarrow> bool" where
  "hasActiveFilters s =
     (trim (searchQuery s) \<noteq> '''' \<or> selectedDomain s \<noteq> None \<or> selectedWeek s \<noteq> ''all'')"

definition activeFilterCount :: "FilterState \<Rightarrow> nat" where
  \<comment> \<open>the number in the badge of the Filters button; a non-empty string is truthy\<close>
  "activeFilterCount s =
     (if searchQuery s \<noteq> '''' then 1 else 0) + (if selectedDomain s \<noteq> None then 1 else 0) +
     (if selectedWeek s \<noteq> ''all'' then 1 else 0)"

definition filterBadge :: "FilterState \<Rightarrow> nat option" where
  \<comment> \<open>the badge is rendered only when \<open>hasActiveFilters\<close> holds\<close>
  "filterBadge s = (if hasActiveFilters s then Some (activeFilterCount s) else None)"

section \<open>Notions of the specification\<close>

text \<open>The two records of the specification's concrete scenario.\<close>

definition record1 :: AzureUpdate where
  "record1 = \<lparr>update_id = ''1'', title = ''Azure Kubernetes Service update'', description = '''',
     domain = [Containers], status = GA, date = ''2024-03-05'', link = None\<rparr>"

definition record2 :: AzureUpdate where
  "record2 = \<lparr>update_id = ''2'', title = ''Cosmos DB preview'', description = '''',
     domain = [Databases], status = Preview, date = ''2024-03-12'', link = None\<rparr>"

text \<open>The week buckets of these two records in a host on UTC.\<close>

definition exampleWeeks :: "WeekBucket list" where
  "exampleWeeks =
     [\<lparr>start = Some 1710028800000, endw = Some 1710633599999,
       label = ''Mar 10 - Mar 16, 2024'', key = ''2024-03-10T00:00:00.000Z''\<rparr>,
      \<lparr>start = Some 1709424000000, endw = Some 1710028799999,
       label = ''Mar 3 - Mar 9, 2024'', key = ''2024-03-03T00:00:00.000Z''\<rparr>]"

subsection \<open>The three predicates of the filter, in the specification's words\<close>

definition ciSubstring :: "string \<Rightarrow> string \<Rightarrow> bool" where
  \<comment> \<open>\<open>text\<close> is case-insensitively a substring of \<open>s\<close>\<close>
  "ciSubstring text s = includesStr (toLowerCase s) (toLowerCase text)"

definition withinBucket :: "Date \<Rightarrow> WeekBucket \<Rightarrow> bool" where
  \<comment> \<open>the date falls within the inclusive range from start to end of the bucket\<close>
  "withinBucket d b = (date_ge d (start b) \<and> date_le d (endw b))"

definition spec_search :: "string \<Rightarrow> AzureUpdate \<Rightarrow> bool" where
  "spec_search searchText r =
     (searchText = '''' \<or> ciSubstring searchText (title r) \<or> ciSubstring searchText (description r))"

definition spec_category :: "DomainCategory option \<Rightarrow> AzureUpdate \<Rightarrow> bool" where
  "spec_category category r = (case category of None \<Rightarrow> True | Some c \<Rightarrow> c \<in> set (domain r))"

definition spec_week ::
  "(string \<Rightarrow> int option) \<Rightarrow> string \<Rightarrow> WeekBucket list \<Rightarrow> AzureUpdate \<Rightarrow> bool" where
  "spec_week parse weekKey buckets r =
     (weekKey = ''all'' \<or>
      (\<exists>b\<in>set buckets. key b = weekKey \<and> withinBucket (newDate parse (date r)) b))"

text \<open>
  The first and the third predicate as the component decides them: a search text of white
  space only counts as empty, and a week key that names no bucket constrains nothing.
\<close>

definition code_search :: "string \<Rightarrow> AzureUpdate \<Rightarrow> bool" where
  "code_search searchText r =
     (trim searchText = '''' \<or> ciSubstring searchText (title r) \<or>
      ciSubstring searchText (description r))"

definition code_week ::
  "(string \<Rightarrow> int option) \<Rightarrow> string \<Rightarrow> WeekBucket list \<Rightarrow> AzureUpdate \<Rightarrow> bool" where
  "code_week parse weekKey buckets r =
     (weekKey = ''all'' \<or> weekKey \<notin> key ` set buckets \<or>
      (\<exists>b\<in>set buckets. find (\<lambda>b. key b = weekKey) buckets = Some b \<and>
         withinBucket (newDate parse (date r)) b))"

definition sameUpToCase :: "string \<Rightarrow> string \<Rightarrow> bool" where
  \<comment> \<open>two texts differ in letter case only\<close>
  "sameUpToCase a b = (toLowerCase a = toLowerCase b)"

definition whitespaceOnly :: "string \<Rightarrow> bool" where
  "whitespaceOnly s = (s \<noteq> [] \<and> list_all isWhiteSpace s)"

subsection \<open>Groups\<close>

definition firstSeen :: "'a list \<Rightarrow> 'a list" where
  \<comment> \<open>the distinct elements in the order of their first occurrence\<close>
  "firstSeen xs = rev (remdups (rev xs))"

definition groupSizes :: "('k \<times> 'a list) list \<Rightarrow> nat" where
  "groupSizes groups = sum_list (map (\<lambda>g. length (snd g)) groups)"

definition groupsBy :: "('a \<Rightarrow> string) \<Rightarrow> 'a list \<Rightarrow> (string \<times> 'a list) list" where
  \<comment> \<open>one group for each key in first-seen order, holding the elements of that key in order\<close>
  "groupsBy f xs = map (\<lambda>k. (k, filter (\<lambda>x. f x = k) xs)) (firstSeen (map f xs))"

definition calendarMonth ::
  "(string \<Rightarrow> int option) \<Rightarrow> TimeZone \<Rightarrow> AzureUpdate \<Rightarrow> (int \<times> int) option" where
  \<comment> \<open>year and month (0 is January) of the record's date in local time\<close>
  "calendarMonth parse zone u =
     map_option (\<lambda>t. (YearFromTime (LocalTime zone t), MonthFromTime (LocalTime zone t)))
       (newDate parse (date u))"

definition commonEra :: "(string \<Rightarrow> int option) \<Rightarrow> TimeZone \<Rightarrow> AzureUpdate \<Rightarrow> bool" where
  \<comment> \<open>the date is valid and its local year is 1 or later\<close>
  "commonEra parse zone u =
     (case newDate parse (date u) of
        Some t \<Rightarrow> 1 \<le> YearFromTime (LocalTime zone t)
      | None \<Rightarrow> False)"

definition dateMonth :: "(string \<Rightarrow> int option) \<Rightarrow> AzureUpdate \<Rightarrow> (int \<times> int) option" where
  \<comment> \<open>year and month (0 is January) of the record's date as it is written; the host reads
      a date without a time of day as midnight UTC\<close>
  "dateMonth parse u =
     map_option (\<lambda>t. (YearFromTime t, MonthFromTime t)) (newDate parse (date u))"

subsection \<open>Weeks\<close>

definition weekStart :: "int \<Rightarrow> int \<Rightarrow> int" where
  \<comment> \<open>local midnight of the Sunday on or before \<open>t\<close>, where local time is UTC plus \<open>off\<close>\<close>
  "weekStart off t = (Day (t + off) - WeekDay (t + off)) * msPerDay - off"

definition stableWeek :: "TimeZone \<Rightarrow> int \<Rightarrow> bool" where
  \<comment> \<open>the local week around \<open>t\<close> lies within the time values a \<open>Date\<close> can hold, the host's
      offset does not change in it, and its local times are read with that offset\<close>
  "stableWeek zone t =
     (let off = offsetAt zone t; s = weekStart off t; e = s + 7 * msPerDay - 1
      in \<bar>s\<bar> \<le> maxTime \<and> \<bar>e\<bar> \<le> maxTime \<and>
         (\<forall>x. s \<le> x \<and> x \<le> e \<longrightarrow> offsetAt zone x = off) \<and>
         (\<forall>y. s + off \<le> y \<and> y \<le> e + off \<longrightarrow> offsetLocal zone y = off))"






subsection \<open>Hosts and records of the examples\<close>

definition utcZone :: TimeZone where
  "utcZone = \<lparr>baseOffset = 0, transitions = []\<rparr>"

definition newYork :: TimeZone where
  \<comment> \<open>\<open>America/New_York\<close> in March 2024: UTC-5, and UTC-4 from 2024-03-10T07:00:00Z\<close>
  "newYork = \<lparr>baseOffset = - 18000000, transitions = [(1710054000000, - 14400000)]\<rparr>"


definition datedRecord :: "string \<Rightarrow> AzureUpdate" where
  "datedRecord d = \<lparr>update_id = ''3'', title = ''Update'', description = '''',
     domain = [Compute], status = GA, date = d, link = None\<rparr>"


section \<open>Search text and white space\<close>

lemma startsWith_iff: "startsWith s sub \<longleftrightarrow> (\<exists>r. s = sub @ r)"
  by (induction s sub rule: startsWith.induct) auto

lemma includesStr_iff: "includesStr s sub \<longleftrightarrow> (\<exists>p r. s = p @ sub @ r)"
proof (induction s)
  case Nil
  then show ?case by auto
next
  case (Cons a s)
  show ?case
  proof
    assume "includesStr (a # s) sub"
    then consider "startsWith (a # s) sub" | "includesStr s sub" by auto
    then show "\<exists>p r. a # s = p @ sub @ r"
    proof cases
      case 1
      then obtain r where "a # s = sub @ r" unfolding startsWith_iff by blast
      then have "a # s = [] @ sub @ r" by simp
      then show ?thesis by blast
    next
      case 2
      then obtain p r where "s = p @ sub @ r" using Cons.IH by auto
      then have "a # s = (a # p) @ sub @ r" by simp
      then show ?thesis by blast
    qed
  next
    assume "\<exists>p r. a # s = p @ sub @ r"
    then obtain p r where pr: "a # s = p @ sub @ r" by auto
    show "includesStr (a # s) sub"
    proof (cases p)
      case Nil
      with pr have "startsWith (a # s) sub" unfolding startsWith_iff by auto
      then show ?thesis by simp
    next
      case (Cons b p')
      then have "s = p' @ sub @ r" using pr by simp
      then have "includesStr s sub" using Cons.IH by blast
      then show ?thesis by simp
    qed
  qed
qed

lemma isWhiteSpace_toLowerChar: "isWhiteSpace (toLowerChar c) = isWhiteSpace c"
  unfolding isWhiteSpace_def toLowerChar_def Let_def by auto

lemma dropWhile_all_iff: "(\<forall>c\<in>set (dropWhile P s). P c) \<longleftrightarrow> (\<forall>c\<in>set s. P c)"
proof
  assume h: "\<forall>c\<in>set (dropWhile P s). P c"
  have "dropWhile P s = []"
  proof (rule ccontr)
    assume ne: "dropWhile P s \<noteq> []"
    then have "\<not> P (hd (dropWhile P s))" by (rule hd_dropWhile)
    moreover have "hd (dropWhile P s) \<in> set (dropWhile P s)" using ne by simp
    ultimately show False using h by blast
  qed
  then show "\<forall>c\<in>set s. P c" by simp
next
  assume "\<forall>c\<in>set s. P c"
  then show "\<forall>c\<in>set (dropWhile P s). P c" by (meson set_dropWhileD)
qed

lemma trim_Nil_iff: "trim s = [] \<longleftrightarrow> list_all isWhiteSpace s"
  by (simp add: trim_def dropWhile_all_iff list_all_iff)

lemma trim_toLowerCase: "trim (toLowerCase s) = [] \<longleftrightarrow> trim s = []"
  by (simp add: trim_Nil_iff toLowerCase_def list_all_iff isWhiteSpace_toLowerChar)

section \<open>The filter\<close>

lemma find_None_key: "w \<notin> key ` set weeks \<Longrightarrow> find (\<lambda>b. key b = w) weeks = None"
  by (auto simp: find_None_iff)

lemma matchesWeek_code_week: "matchesWeek parse w weeks r = code_week parse w weeks r"
proof (cases "find (\<lambda>b. key b = w) weeks")
  case None
  then have "w \<notin> key ` set weeks" by (auto simp: find_None_iff)
  with None show ?thesis by (simp add: matchesWeek_def code_week_def)
next
  case (Some b)
  then have "w \<in> key ` set weeks" by (auto simp: find_Some_iff image_iff)
  moreover from Some have "b \<in> set weeks" by (auto simp: find_Some_iff)
  ultimately show ?thesis using Some
    by (auto simp add: matchesWeek_def code_week_def withinBucket_def Let_def)
qed

lemma example_availableWeeks:
  "availableWeeks parseISODate utcZone (Some [record1, record2]) = Inr exampleWeeks"
  by code_simp

text \<open>
  Claim C6. With the default criteria (empty search text, no category, week \<open>all\<close>) the
  filter returns the record collection itself, element for element and in order, whatever
  the week buckets are.
\<close>

theorem default_filter_identity:
  "filteredUpdates parse (Some R) '''' None ''all'' weeks = R"
  by (simp add: filteredUpdates_def matchesSearch_def matchesDomain_def matchesWeek_def
      orEmpty_def trim_def)

theorem default_filter_identity_witness:
  "filteredUpdates parseISODate (Some [record1, record2]) '''' None ''all'' [] = [record1, record2]"
  using default_filter_identity [of parseISODate "[record1, record2]" "[]"] by simp

text \<open>
  Claim C9. A search text of white space only (not empty, but empty once trimmed) imposes
  no constraint: with no category and week \<open>all\<close> the filter returns the whole collection,
  and \<open>hasActiveFilters\<close> is false for such a state; in any state with such a text,
  \<open>hasActiveFilters\<close> holds only by a selected category or a week other than \<open>all\<close>.
\<close>

theorem whitespace_imposes_nothing:
  assumes "whitespaceOnly q"
  shows "filteredUpdates parse (Some R) q None ''all'' weeks = R \<and>
         \<not> hasActiveFilters
             \<lparr>searchQuery = q, selectedDomain = None, selectedWeek = ''all'', showFilters = b\<rparr> \<and>
         hasActiveFilters \<lparr>searchQuery = q, selectedDomain = d, selectedWeek = w, showFilters = b\<rparr>
           = (d \<noteq> None \<or> w \<noteq> ''all'')"
proof -
  from assms have "trim q = []" by (simp add: whitespaceOnly_def trim_Nil_iff)
  then show ?thesis
    by (simp add: filteredUpdates_def matchesSearch_def matchesDomain_def matchesWeek_def
        orEmpty_def hasActiveFilters_def)
qed

theorem whitespace_imposes_nothing_witness:
  "whitespaceOnly '' '' \<and>
   filteredUpdates parseISODate (Some [record1, record2]) '' '' None ''all'' exampleWeeks
     = [record1, record2] \<and>
   \<not> hasActiveFilters
       \<lparr>searchQuery = '' '', selectedDomain = None, selectedWeek = ''all'', showFilters = True\<rparr>"
proof -
  have h: "whitespaceOnly '' ''" by code_simp
  from whitespace_imposes_nothing [OF h, of parseISODate "[record1, record2]" exampleWeeks True]
  show ?thesis using h by blast
qed

text \<open>
  Claim C7. Search is case-insensitive: two search texts that differ in letter case only
  give the same filter result, for every record collection, category, week key and list
  of buckets; \<open>AZURE\<close> and \<open>azure\<close> are such a pair.
\<close>

theorem case_insensitive:
  assumes "sameUpToCase q1 q2"
  shows "filteredUpdates parse updates q1 d w weeks = filteredUpdates parse updates q2 d w weeks"
proof -
  from assms have eq: "toLowerCase q1 = toLowerCase q2" by (simp add: sameUpToCase_def)
  have "trim q1 = [] \<longleftrightarrow> trim q2 = []"
    using trim_toLowerCase [of q1] trim_toLowerCase [of q2] eq by simp
  then have "matchesSearch q1 = matchesSearch q2"
    by (simp add: matchesSearch_def eq fun_eq_iff)
  then show ?thesis by (simp add: filteredUpdates_def)
qed

theorem case_insensitive_witness:
  "sameUpToCase ''AZURE'' ''azure'' \<and>
   filteredUpdates parseISODate (Some [record1, record2]) ''AZURE'' None ''all'' exampleWeeks
     = filteredUpdates parseISODate (Some [record1, record2]) ''azure'' None ''all'' exampleWeeks \<and>
   filteredUpdates parseISODate (Some [record1, record2]) ''azure'' None ''all'' exampleWeeks
     = [record1]"
proof -
  have h: "sameUpToCase ''AZURE'' ''azure''" by code_simp
  have v: "filteredUpdates parseISODate (Some [record1, record2]) ''azure'' None ''all''
             exampleWeeks = [record1]"
    by code_simp
  from case_insensitive [OF h] show ?thesis using h v by simp
qed

text \<open>
  Claim C10. A week key that is neither \<open>all\<close> nor the key of a bucket is ignored: the
  week predicate holds of every record, and the filter returns what it returns for \<open>all\<close>.
  This holds for any list of buckets, so also for the buckets derived from the collection.
\<close>

theorem unknown_week:
  assumes "w \<noteq> ''all''" "w \<notin> key ` set weeks"
  shows "(\<forall>u. matchesWeek parse w weeks u) \<and>
     filteredUpdates parse updates q d w weeks = filteredUpdates parse updates q d ''all'' weeks"
proof -
  have all: "matchesWeek parse w weeks u" for u
    using assms by (simp add: matchesWeek_def find_None_key)
  have "matchesWeek parse ''all'' weeks u" for u
    by (simp add: matchesWeek_def)
  with all have "matchesWeek parse w weeks = matchesWeek parse ''all'' weeks"
    by (simp add: fun_eq_iff)
  then show ?thesis using all by (simp add: filteredUpdates_def)
qed

theorem unknown_week_witness:
  "availableWeeks parseISODate utcZone (Some [record1, record2]) = Inr exampleWeeks \<and>
   ''2024-01-07T00:00:00.000Z'' \<noteq> ''all'' \<and>
   ''2024-01-07T00:00:00.000Z'' \<notin> key ` set exampleWeeks \<and>
   filteredUpdates parseISODate (Some [record1, record2]) '''' None
     ''2024-01-07T00:00:00.000Z'' exampleWeeks = [record1, record2]"
proof -
  have h1: "''2024-01-07T00:00:00.000Z'' \<noteq> ''all''" by simp
  have h2: "''2024-01-07T00:00:00.000Z'' \<notin> key ` set exampleWeeks"
    by (simp add: exampleWeeks_def)
  have v: "filteredUpdates parseISODate (Some [record1, record2]) '''' None ''all'' exampleWeeks
             = [record1, record2]"
    by (simp add: filteredUpdates_def matchesSearch_def matchesDomain_def matchesWeek_def
        orEmpty_def trim_def)
  from unknown_week [OF h1 h2, of parseISODate "Some [record1, record2]" "''''" None]
  show ?thesis using h1 h2 v example_availableWeeks by simp
qed

text \<open>
  Claim C1, as the specification states it, fails: a record passes the filter although the
  search text, two spaces, is neither empty nor a substring of its title or description;
  and a record passes although the week key names no bucket, so that its date is within
  no matching bucket.
\<close>

theorem filter_conjunctive_counterexample:
  "(record1 \<in> set (filteredUpdates parseISODate (Some [record1]) ''  '' None ''all'' exampleWeeks) \<and>
    \<not> spec_search ''  '' record1) \<and>
   (record1 \<in> set (filteredUpdates parseISODate (Some [record1]) '''' None
       ''2024-01-07T00:00:00.000Z'' exampleWeeks) \<and>
    \<not> spec_week parseISODate ''2024-01-07T00:00:00.000Z'' exampleWeeks record1)"
  by code_simp

text \<open>
  Claim C1, amended. The filter keeps exactly the records that satisfy all three of: the
  search text is empty once trimmed, or case-insensitively a substring of the title or of
  the description; no category is selected, or the selected one is among the record's
  categories; the week key is \<open>all\<close>, or names no bucket, or the record's date is within
  the inclusive range of the first bucket with that key. The records keep the order and
  the multiplicity they have in the collection.
\<close>

theorem filter_conjunctive_amended:
  "filteredUpdates parse (Some R) q c w weeks =
     filter (\<lambda>r. code_search q r \<and> spec_category c r \<and> code_week parse w weeks r) R"
  by (simp add: filteredUpdates_def orEmpty_def matchesWeek_code_week matchesSearch_def
      code_search_def ciSubstring_def matchesDomain_def spec_category_def)

theorem filter_conjunctive_amended_witness:
  "filteredUpdates parseISODate (Some [record1, record2]) ''COSMOS'' (Some Databases)
     ''2024-03-10T00:00:00.000Z'' exampleWeeks = [record2] \<and>
   filter (\<lambda>r. code_search ''COSMOS'' r \<and> spec_category (Some Databases) r \<and>
                code_week parseISODate ''2024-03-10T00:00:00.000Z'' exampleWeeks r)
     [record1, record2] = [record2]"
proof -
  have "filter (\<lambda>r. code_search ''COSMOS'' r \<and> spec_category (Some Databases) r \<and>
                code_week parseISODate ''2024-03-10T00:00:00.000Z'' exampleWeeks r)
          [record1, record2] = [record2]"
    by code_simp
  then show ?thesis
    using filter_conjunctive_amended [of parseISODate "[record1, record2]" "''COSMOS''"
        "Some Databases" "''2024-03-10T00:00:00.000Z''" exampleWeeks]
    by simp
qed

section \<open>Clearing the filters\<close>

lemma commit_handleClearFilters:
  "commit s handleClearFilters
     = s\<lparr>searchQuery := '''', selectedDomain := None, selectedWeek := ''all''\<rparr>"
  by (simp add: commit_def handleClearFilters_def)

lemma cleared_same_iff:
  "s\<lparr>searchQuery := '''', selectedDomain := None, selectedWeek := ''all''\<rparr> = s \<longleftrightarrow>
     searchQuery s = '''' \<and> selectedDomain s = None \<and> selectedWeek s = ''all''"
  by (cases s) auto

text \<open>
  The three updates of \<open>handleClearFilters\<close>, each made by an event of its own, give three
  renders, two of them with criteria that are cleared in part only.
\<close>

lemma separate_events_render_each:
  "renders (dispatchEvent [SetSelectedWeek ''all'']
             (dispatchEvent [SetSelectedDomain None]
               (dispatchEvent [SetSearchQuery '''']
                 \<lparr>current = \<lparr>searchQuery = ''x'', selectedDomain = Some Compute,
                              selectedWeek = ''2024-03-03T00:00:00.000Z'', showFilters = True\<rparr>,
                  renders = []\<rparr>)))
     = [\<lparr>searchQuery = '''', selectedDomain = Some Compute,
         selectedWeek = ''2024-03-03T00:00:00.000Z'', showFilters = True\<rparr>,
        \<lparr>searchQuery = '''', selectedDomain = None,
         selectedWeek = ''2024-03-03T00:00:00.000Z'', showFilters = True\<rparr>,
        \<lparr>searchQuery = '''', selectedDomain = None, selectedWeek = ''all'', showFilters = True\<rparr>]"
  by (simp add: dispatchEvent_def commit_def Let_def)

text \<open>
  Claim C5. A click on a clear button, from any state of the component, is one state
  transition: the component renders at most once more, with the search text empty, no
  category and week \<open>all\<close> (the panel flag is untouched), and exactly once more unless the
  three criteria have these values already, in which case nothing is rendered. No state
  with only one or two of the criteria cleared is ever rendered. In the state after the
  click the count of active filters is 0 and \<open>hasActiveFilters\<close> is false.
\<close>

theorem clear_filters:
  "current (dispatchEvent handleClearFilters c)
     = (current c)\<lparr>searchQuery := '''', selectedDomain := None, selectedWeek := ''all''\<rparr> \<and>
   renders (dispatchEvent handleClearFilters c)
     = renders c @
       (if searchQuery (current c) = '''' \<and> selectedDomain (current c) = None \<and>
           selectedWeek (current c) = ''all''
        then []
        else [(current c)\<lparr>searchQuery := '''', selectedDomain := None, selectedWeek := ''all''\<rparr>]) \<and>
   length (renders (dispatchEvent handleClearFilters c)) \<le> length (renders c) + 1 \<and>
   activeFilterCount (current (dispatchEvent handleClearFilters c)) = 0 \<and>
   \<not> hasActiveFilters (current (dispatchEvent handleClearFilters c))"
proof -
  let ?s = "(current c)\<lparr>searchQuery := '''', selectedDomain := None, selectedWeek := ''all''\<rparr>"
  have cur: "current (dispatchEvent handleClearFilters c) = ?s"
    by (auto simp: dispatchEvent_def Let_def commit_handleClearFilters)
  have ren: "renders (dispatchEvent handleClearFilters c)
     = renders c @
       (if searchQuery (current c) = '''' \<and> selectedDomain (current c) = None \<and>
           selectedWeek (current c) = ''all''
        then [] else [?s])"
    unfolding dispatchEvent_def Let_def commit_handleClearFilters cleared_same_iff by simp
  have len: "length (renders (dispatchEvent handleClearFilters c)) \<le> length (renders c) + 1"
    unfolding ren by simp
  have cnt: "activeFilterCount ?s = 0" by (simp add: activeFilterCount_def)
  have act: "\<not> hasActiveFilters ?s" by (simp add: hasActiveFilters_def trim_def)
  show ?thesis unfolding cur using ren len cnt act by (simp only: cur simp_thms)
qed

theorem clear_filters_witness:
  "dispatchEvent handleClearFilters
     \<lparr>current = \<lparr>searchQuery = ''x'', selectedDomain = Some Compute,
                  selectedWeek = ''2024-03-03T00:00:00.000Z'', showFilters = True\<rparr>,
      renders = []\<rparr>
     = \<lparr>current = \<lparr>searchQuery = '''', selectedDomain = None, selectedWeek = ''all'',
                    showFilters = True\<rparr>,
        renders = [\<lparr>searchQuery = '''', selectedDomain = None, selectedWeek = ''all'',
                    showFilters = True\<rparr>]\<rparr> \<and>
   activeFilterCount (current (dispatchEvent handleClearFilters
     \<lparr>current = \<lparr>searchQuery = ''x'', selectedDomain = Some Compute,
                  selectedWeek = ''2024-03-03T00:00:00.000Z'', showFilters = True\<rparr>,
      renders = []\<rparr>)) = 0 \<and>
   hasActiveFilters \<lparr>searchQuery = ''x'', selectedDomain = Some Compute,
                     selectedWeek = ''2024-03-03T00:00:00.000Z'', showFilters = True\<rparr>"
proof -
  let ?c = "\<lparr>current = \<lparr>searchQuery = ''x'', selectedDomain = Some Compute,
                  selectedWeek = ''2024-03-03T00:00:00.000Z'', showFilters = True\<rparr>,
      renders = []\<rparr>"
  note T = clear_filters [of ?c]
  have "dispatchEvent handleClearFilters ?c
     = \<lparr>current = current (dispatchEvent handleClearFilters ?c),
        renders = renders (dispatchEvent handleClearFilters ?c)\<rparr>"
    by simp
  also have "\<dots> = \<lparr>current = \<lparr>searchQuery = '''', selectedDomain = None, selectedWeek = ''all'',
                    showFilters = True\<rparr>,
        renders = [\<lparr>searchQuery = '''', selectedDomain = None, selectedWeek = ''all'',
                    showFilters = True\<rparr>]\<rparr>"
    unfolding T [THEN conjunct1] T [THEN conjunct2, THEN conjunct1] by simp
  finally have 1: "dispatchEvent handleClearFilters ?c
     = \<lparr>current = \<lparr>searchQuery = '''', selectedDomain = None, selectedWeek = ''all'',
                    showFilters = True\<rparr>,
        renders = [\<lparr>searchQuery = '''', selectedDomain = None, selectedWeek = ''all'',
                    showFilters = True\<rparr>]\<rparr>" .
  have 2: "hasActiveFilters \<lparr>searchQuery = ''x'', selectedDomain = Some Compute,
                     selectedWeek = ''2024-03-03T00:00:00.000Z'', showFilters = True\<rparr>"
    by (simp add: hasActiveFilters_def)
  show ?thesis using 1 2 T [THEN conjunct2, THEN conjunct2, THEN conjunct2, THEN conjunct1]
    by simp
qed

section \<open>Categories\<close>

lemma set_foldl_set_add: "set (foldl set_add acc xs) = set acc \<union> set xs"
  by (induction xs arbitrary: acc) (auto simp: set_add_def)

lemma distinct_foldl_set_add: "distinct acc \<Longrightarrow> distinct (foldl set_add acc xs)"
  by (induction xs arbitrary: acc) (auto simp: set_add_def)

lemma set_collect_domains:
  "set (foldl (\<lambda>domains update. foldl set_add domains (domain update)) acc us)
     = set acc \<union> (\<Union>u\<in>set us. set (domain u))"
  by (induction us arbitrary: acc) (auto simp: set_foldl_set_add)

lemma distinct_collect_domains:
  "distinct acc \<Longrightarrow>
   distinct (foldl (\<lambda>domains update. foldl set_add domains (domain update)) acc us)"
  by (induction us arbitrary: acc) (auto simp: distinct_foldl_set_add)

lemma inj_domainName: "inj domainName"
proof (rule injI)
  fix a b assume "domainName a = domainName b"
  then show "a = b" by (cases a; cases b; simp)
qed

lemma sorted_distinct_strict:
  fixes xs :: "'a::linorder list"
  shows "sorted xs \<Longrightarrow> distinct xs \<Longrightarrow> sorted_wrt (<) xs"
  by (simp add: strict_sorted_iff)

text \<open>
  Claim C4. \<open>allDomains\<close> returns the union of the categories of all records, each once,
  in strictly ascending lexicographic order of their names; for the empty collection, and
  for a missing one, it returns the empty list.
\<close>

theorem allDomains_union_sorted:
  "set (allDomains (Some R)) = (\<Union>u\<in>set R. set (domain u)) \<and>
   distinct (allDomains (Some R)) \<and>
   sorted_wrt (<) (map domainName (allDomains (Some R))) \<and>
   allDomains (Some []) = [] \<and> allDomains None = []"
proof -
  let ?ds = "foldl (\<lambda>domains update. foldl set_add domains (domain update)) [] R"
  have d: "distinct ?ds" by (rule distinct_collect_domains) simp
  have a: "allDomains (Some R) = sort_key domainName ?ds"
    by (simp add: allDomains_def orEmpty_def)
  have s: "set (allDomains (Some R)) = (\<Union>u\<in>set R. set (domain u))"
    unfolding a by (simp add: set_collect_domains)
  have dd: "distinct (allDomains (Some R))" unfolding a using d by simp
  have "sorted (map domainName (allDomains (Some R)))" unfolding a by (rule sorted_sort_key)
  moreover have "distinct (map domainName (allDomains (Some R)))"
    using dd inj_domainName by (simp add: distinct_map inj_on_def inj_def)
  ultimately have st: "sorted_wrt (<) (map domainName (allDomains (Some R)))"
    by (rule sorted_distinct_strict)
  have e: "allDomains (Some []) = [] \<and> allDomains None = []"
    by (simp add: allDomains_def orEmpty_def)
  show ?thesis using s dd st e by blast
qed

theorem allDomains_union_sorted_witness:
  "allDomains (Some [record1, record2]) = [Containers, Databases] \<and>
   set (allDomains (Some [record1, record2])) = (\<Union>u\<in>set [record1, record2]. set (domain u)) \<and>
   distinct (allDomains (Some [record1, record2])) \<and>
   sorted_wrt (<) (map domainName (allDomains (Some [record1, record2])))"
proof -
  have v: "allDomains (Some [record1, record2]) = [Containers, Databases]" by code_simp
  from allDomains_union_sorted [of "[record1, record2]"] show ?thesis using v by blast
qed

section \<open>The calendar\<close>

lemma div_bounds:
  fixes a b :: int
  assumes "0 < b"
  shows "b * (a div b) \<le> a" "a < b * (a div b) + b"
proof -
  have "a = b * (a div b) + a mod b" by simp
  moreover have "0 \<le> a mod b" "a mod b < b" using assms by simp_all
  ultimately show "b * (a div b) \<le> a" "a < b * (a div b) + b" by linarith+
qed

lemma doe_decomp:
  fixes doe :: int
  assumes "0 \<le> doe" "doe \<le> 146096"
    and c_def: "c = min 3 (doe div 36524)"
    and r1_def: "r1 = doe - 36524 * c"
    and q_def: "q = r1 div 1461"
    and r2_def: "r2 = r1 mod 1461"
    and a_def: "a = min 3 (r2 div 365)"
    and doy_def: "doy = r2 - 365 * a"
    and yoe_def: "yoe = 100 * c + 4 * q + a"
  shows "0 \<le> yoe" "yoe \<le> 399" "0 \<le> doy" "doy \<le> 365"
        "yoe * 365 + yoe div 4 - yoe div 100 + doy = doe"
proof -
  have c: "0 \<le> c" "c \<le> 3" using assms(1) by (auto simp: c_def)
  have r1: "0 \<le> r1" "r1 \<le> 36524" using assms(1,2) unfolding r1_def c_def by auto
  have q: "0 \<le> q" "q \<le> 24" using r1 unfolding q_def by auto
  have r2: "0 \<le> r2" "r2 \<le> 1460" unfolding r2_def by auto
  have a: "0 \<le> a" "a \<le> 3" using r2 by (auto simp: a_def)
  have doy: "0 \<le> doy" "doy \<le> 365" using r2 unfolding doy_def a_def by auto
  have r1eq: "r1 = 1461 * q + r2" unfolding q_def r2_def by simp
  have d4: "yoe div 4 = 25 * c + q" unfolding yoe_def using a by auto
  have d100: "yoe div 100 = c" unfolding yoe_def using a q by auto
  show "0 \<le> yoe" "yoe \<le> 399" using c q a unfolding yoe_def by auto
  show "0 \<le> doy" "doy \<le> 365" using doy by auto
  show "yoe * 365 + yoe div 4 - yoe div 100 + doy = doe"
    unfolding d4 d100 using r1eq unfolding yoe_def doy_def r1_def by simp
qed

lemma month_part:
  fixes doy :: int
  assumes "0 \<le> doy" "doy \<le> 365"
    and mp_def: "mp = (5 * doy + 2) div 153"
  shows "0 \<le> mp" "mp \<le> 11" "0 \<le> doy - (153 * mp + 2) div 5" "doy - (153 * mp + 2) div 5 \<le> 30"
proof -
  define e where "e = (153 * mp + 2) div 5"
  have 1: "153 * mp \<le> 5 * doy + 2" "5 * doy + 2 < 153 * mp + 153"
    unfolding mp_def using div_bounds [of 153 "5 * doy + 2"] by simp_all
  have 2: "5 * e \<le> 153 * mp + 2" "153 * mp + 2 < 5 * e + 5"
    unfolding e_def using div_bounds [of 5 "153 * mp + 2"] by simp_all
  show "0 \<le> mp" "mp \<le> 11" using 1 assms(1,2) by linarith+
  show "0 \<le> doy - (153 * mp + 2) div 5" "doy - (153 * mp + 2) div 5 \<le> 30"
    using 1 2 unfolding e_def[symmetric] by linarith+
qed

lemma civil_from_days_props:
  assumes "civil_from_days z = (y, m, d)"
  shows "1 \<le> m" "m \<le> 12" "1 \<le> d" "d \<le> 31" "days_from_civil y m d = z"
        "(z + 719468) div 146097 * 400 \<le> y" "y \<le> (z + 719468) div 146097 * 400 + 400"
proof -
  define doe where "doe = (z + 719468) mod 146097"
  define era where "era = (z + 719468) div 146097"
  define c where "c = min 3 (doe div 36524)"
  define r1 where "r1 = doe - 36524 * c"
  define q where "q = r1 div 1461"
  define r2 where "r2 = r1 mod 1461"
  define a where "a = min 3 (r2 div 365)"
  define doy where "doy = r2 - 365 * a"
  define yoe where "yoe = 100 * c + 4 * q + a"
  define mp where "mp = (5 * doy + 2) div 153"
  have doe: "0 \<le> doe" "doe \<le> 146096" by (auto simp: doe_def)
  note dd = doe_decomp [OF doe c_def r1_def q_def r2_def a_def doy_def yoe_def]
  note mm = month_part [OF dd(3,4) mp_def]
  define M where "M = (if mp < 10 then mp + 3 else mp - 9)"
  have M: "1 \<le> M" "M \<le> 12" "(if M > 2 then M - 3 else M + 9) = mp"
  proof -
    show "1 \<le> M" using mm(1,2) unfolding M_def by (cases "mp < 10") simp_all
    show "M \<le> 12" using mm(1,2) unfolding M_def by (cases "mp < 10") simp_all
    show "(if M > 2 then M - 3 else M + 9) = mp"
      using mm(1,2) unfolding M_def by (cases "mp < 10") simp_all
  qed
  have "civil_from_days z =
          (yoe + era * 400 + (if M \<le> 2 then 1 else 0), M, doy - (153 * mp + 2) div 5 + 1)"
    unfolding civil_from_days_def Let_def doe_def era_def c_def r1_def q_def r2_def a_def
      doy_def yoe_def mp_def M_def
    by (rule refl)
  with assms have "(y, m, d) =
          (yoe + era * 400 + (if M \<le> 2 then 1 else 0), M, doy - (153 * mp + 2) div 5 + 1)"
    by (rule trans [OF sym])
  then have y: "y = yoe + era * 400 + (if M \<le> 2 then 1 else 0)" and m: "m = M"
    and d: "d = doy - (153 * mp + 2) div 5 + 1"
    by (simp_all only: prod.inject)
  show "1 \<le> m" "m \<le> 12" using M(1,2) by (simp_all only: m)
  show "1 \<le> d" "d \<le> 31" using mm(3,4) unfolding d by linarith+
  have yb: "yoe + era * 400 \<le> y" "y \<le> yoe + era * 400 + 1"
    unfolding y by simp_all
  show "(z + 719468) div 146097 * 400 \<le> y" "y \<le> (z + 719468) div 146097 * 400 + 400"
    using yb dd(1,2) unfolding era_def by linarith+
  have y': "(if M \<le> 2 then y - 1 else y) = yoe + era * 400"
    unfolding y by simp
  have e1: "(yoe + era * 400) div 400 = era" using dd(1,2) by simp
  have e2: "(yoe + era * 400) mod 400 = yoe" using dd(1,2) by simp
  have z: "era * 146097 + doe = z + 719468" by (simp add: era_def doe_def)
  have "days_from_civil y M d = era * 146097 + (yoe * 365 + yoe div 4 - yoe div 100
          + ((153 * mp + 2) div 5 + d - 1)) - 719468"
    unfolding days_from_civil_def Let_def M(3) y' e1 e2 by (rule refl)
  also have "\<dots> = z" using dd(5) z unfolding d by linarith
  finally show "days_from_civil y m d = z" unfolding m .
qed

lemma civil_cases: obtains y m d where "civil_from_days z = (y, m, d)"
  by (cases "civil_from_days z") auto

lemma msPerDay_pos: "0 < msPerDay" by (simp add: msPerDay_def)


lemma Day_TimeWithinDay: "Day x * msPerDay + TimeWithinDay x = x"
  by (simp add: Day_def TimeWithinDay_def)

lemma TimeWithinDay_bounds: "0 \<le> TimeWithinDay x" "TimeWithinDay x < msPerDay"
  using msPerDay_pos by (simp_all add: TimeWithinDay_def)

lemma WeekDay_bounds: "0 \<le> WeekDay x" "WeekDay x \<le> 6"
  by (simp_all add: WeekDay_def)


lemma MonthFromTime_bounds: "0 \<le> MonthFromTime t" "MonthFromTime t \<le> 11"
proof -
  obtain y m d where c: "civil_from_days (Day t) = (y, m, d)" by (rule civil_cases)
  note p = civil_from_days_props [OF c]
  show "0 \<le> MonthFromTime t" "MonthFromTime t \<le> 11"
    using p(1,2) by (simp_all add: MonthFromTime_def c)
qed

section \<open>Digits and labels\<close>

lemma digitChar_inj: "digitChar a = digitChar b \<Longrightarrow> a mod 10 = b mod 10"
proof -
  assume h: "digitChar a = digitChar b"
  have d: "distinct ''0123456789''" by simp
  have "a mod 10 < length ''0123456789''" "b mod 10 < length ''0123456789''" by simp_all
  with d h show ?thesis unfolding digitChar_def by (simp only: nth_eq_iff_index_eq)
qed

lemma digitChar_in: "digitChar d \<in> set ''0123456789''"
proof -
  have "d mod 10 < length ''0123456789''" by simp
  then show ?thesis unfolding digitChar_def by (rule nth_mem)
qed

lemma decimal_digits: "set (decimal n) \<subseteq> set ''0123456789''"
proof (induction n rule: decimal.induct)
  case (1 n)
  show ?case
  proof (cases "n < 10")
    case True
    then have "decimal n = [digitChar n]" by (simp add: decimal.simps)
    then show ?thesis using digitChar_in [of n] by simp
  next
    case False
    then have "decimal n = decimal (n div 10) @ [digitChar n]" by (simp add: decimal.simps)
    then show ?thesis using 1 [OF False] digitChar_in [of n] by simp
  qed
qed

lemma decimal_not_Nil: "decimal n \<noteq> []"
  by (subst decimal.simps) simp

lemma decimal_inj: "decimal n = decimal m \<Longrightarrow> n = m"
proof (induction n arbitrary: m rule: decimal.induct)
  case (1 n)
  show ?case
  proof (cases "n < 10")
    case True
    then have n: "decimal n = [digitChar n]" by (simp add: decimal.simps)
    show ?thesis
    proof (cases "m < 10")
      case m: True
      then have "decimal m = [digitChar m]" by (simp add: decimal.simps)
      with n "1.prems" have "digitChar n = digitChar m" by simp
      from digitChar_inj [OF this] True m show ?thesis by simp
    next
      case False
      then have "decimal m = decimal (m div 10) @ [digitChar m]" by (simp add: decimal.simps)
      with n "1.prems" decimal_not_Nil [of "m div 10"] show ?thesis by simp
    qed
  next
    case False
    then have n: "decimal n = decimal (n div 10) @ [digitChar n]" by (simp add: decimal.simps)
    show ?thesis
    proof (cases "m < 10")
      case True
      then have "decimal m = [digitChar m]" by (simp add: decimal.simps)
      with n "1.prems" decimal_not_Nil [of "n div 10"] show ?thesis by simp
    next
      case m: False
      then have "decimal m = decimal (m div 10) @ [digitChar m]" by (simp add: decimal.simps)
      with n "1.prems" have d: "decimal (n div 10) = decimal (m div 10)"
        and c: "digitChar n = digitChar m" by simp_all
      have "n div 10 = m div 10" using "1.IH" [OF False d] .
      moreover have "n mod 10 = m mod 10" using digitChar_inj [OF c] .
      ultimately show ?thesis by (metis div_mult_mod_eq)
    qed
  qed
qed

lemma split_at_separator:
  assumes "xs @ c # ys = xs' @ c # ys'" "c \<notin> set xs" "c \<notin> set xs'"
  shows "xs = xs' \<and> ys = ys'"
  using assms
proof (induction xs arbitrary: xs')
  case Nil
  then show ?case by (cases xs') auto
next
  case (Cons a xs)
  then show ?case by (cases xs') auto
qed

lemma monthLong_cases:
  assumes "0 \<le> m" "m \<le> 11"
  shows "m = 0 \<or> m = 1 \<or> m = 2 \<or> m = 3 \<or> m = 4 \<or> m = 5 \<or> m = 6 \<or> m = 7 \<or> m = 8 \<or> m = 9 \<or>
         m = 10 \<or> m = (11::int)"
  using assms by arith

lemma monthLong_no_space:
  assumes "0 \<le> m" "m \<le> 11" shows "CHR '' '' \<notin> set (monthLong m)"
  using monthLong_cases [OF assms] by (auto simp: monthLong_def)

lemma monthLong_inj:
  assumes "0 \<le> m" "m \<le> 11" "0 \<le> n" "n \<le> 11" "monthLong m = monthLong n"
  shows "m = n"
  using monthLong_cases [OF assms(1,2)] monthLong_cases [OF assms(3,4)] assms(5)
  by (auto simp: monthLong_def)

lemma space_not_in_decimal: "CHR '' '' \<notin> set (decimal n)"
  using decimal_digits [of n] by auto

lemma yearNumeric_inj:
  assumes "1 \<le> y" "1 \<le> y'" "yearNumeric y = yearNumeric y'"
  shows "y = y'"
proof -
  from assms have "decimal (nat y) = decimal (nat y')" by (simp add: yearNumeric_def)
  then have "nat y = nat y'" by (rule decimal_inj)
  with assms(1,2) show ?thesis by simp
qed

lemma fmtMonthYear_inj:
  assumes "1 \<le> YearFromTime (LocalTime zone a)" "1 \<le> YearFromTime (LocalTime zone b)"
  shows "fmtMonthYear zone (Some a) = fmtMonthYear zone (Some b) \<longleftrightarrow>
         YearFromTime (LocalTime zone a) = YearFromTime (LocalTime zone b) \<and>
         MonthFromTime (LocalTime zone a) = MonthFromTime (LocalTime zone b)"
proof
  let ?la = "LocalTime zone a" and ?lb = "LocalTime zone b"
  assume "fmtMonthYear zone (Some a) = fmtMonthYear zone (Some b)"
  then have e: "monthLong (MonthFromTime ?la) @ CHR '' '' # yearNumeric (YearFromTime ?la)
      = monthLong (MonthFromTime ?lb) @ CHR '' '' # yearNumeric (YearFromTime ?lb)"
    by (simp add: fmtMonthYear_def Let_def)
  have "monthLong (MonthFromTime ?la) = monthLong (MonthFromTime ?lb) \<and>
        yearNumeric (YearFromTime ?la) = yearNumeric (YearFromTime ?lb)"
    using e by (rule split_at_separator) (simp_all add: monthLong_no_space MonthFromTime_bounds)
  then show "YearFromTime ?la = YearFromTime ?lb \<and> MonthFromTime ?la = MonthFromTime ?lb"
    using yearNumeric_inj [OF assms] monthLong_inj MonthFromTime_bounds by blast
next
  assume "YearFromTime (LocalTime zone a) = YearFromTime (LocalTime zone b) \<and>
         MonthFromTime (LocalTime zone a) = MonthFromTime (LocalTime zone b)"
  then show "fmtMonthYear zone (Some a) = fmtMonthYear zone (Some b)"
    by (simp add: fmtMonthYear_def Let_def)
qed

lemma monthKey_calendarMonth:
  assumes "commonEra parse zone u" "commonEra parse zone v"
  shows "monthKey parse zone u = monthKey parse zone v \<longleftrightarrow>
         calendarMonth parse zone u = calendarMonth parse zone v"
proof -
  from assms(1) obtain a where a: "newDate parse (date u) = Some a"
    "1 \<le> YearFromTime (LocalTime zone a)"
    by (auto simp: commonEra_def split: option.splits)
  from assms(2) obtain b where b: "newDate parse (date v) = Some b"
    "1 \<le> YearFromTime (LocalTime zone b)"
    by (auto simp: commonEra_def split: option.splits)
  show ?thesis
    using fmtMonthYear_inj [OF a(2) b(2)] by (simp add: monthKey_def calendarMonth_def a(1) b(1))
qed

section \<open>Month groups\<close>

lemma pushGroup_sizes: "groupSizes (pushGroup k x groups) = Suc (groupSizes groups)"
  by (induction groups) (auto simp: groupSizes_def)

lemma firstSeen_snoc:
  "firstSeen (ys @ [k]) = (if k \<in> set ys then firstSeen ys else firstSeen ys @ [k])"
  by (simp add: firstSeen_def)

lemma distinct_firstSeen: "distinct (firstSeen xs)" by (simp add: firstSeen_def)

lemma set_firstSeen: "set (firstSeen xs) = set xs" by (simp add: firstSeen_def)

lemma pushGroup_map:
  "distinct ks \<Longrightarrow>
   pushGroup k x (map (\<lambda>k'. (k', g k')) ks) =
     (if k \<in> set ks then map (\<lambda>k'. (k', if k' = k then g k' @ [x] else g k')) ks
      else map (\<lambda>k'. (k', g k')) ks @ [(k, [x])])"
  by (induction ks) auto

lemma groupsBy_snoc: "pushGroup (f x) x (groupsBy f xs) = groupsBy f (xs @ [x])"
proof (cases "f x \<in> set (map f xs)")
  case True
  then show ?thesis
    unfolding groupsBy_def
    by (simp add: pushGroup_map distinct_firstSeen set_firstSeen firstSeen_snoc)
next
  case False
  then have "\<forall>y\<in>set xs. f y \<noteq> f x" by (metis image_eqI set_map)
  then have "filter (\<lambda>y. f y = f x) xs = []" by (simp add: filter_empty_conv)
  with False show ?thesis
    unfolding groupsBy_def
    by (auto simp add: pushGroup_map distinct_firstSeen set_firstSeen firstSeen_snoc)
qed

lemma foldl_pushGroup: "foldl (\<lambda>groups x. pushGroup (f x) x groups) [] xs = groupsBy f xs"
proof (induction xs rule: rev_induct)
  case Nil then show ?case by (simp add: groupsBy_def firstSeen_def)
next
  case (snoc x xs) then show ?case by (simp add: groupsBy_snoc)
qed

lemma foldl_pushGroup_sizes:
  "groupSizes (foldl (\<lambda>groups x. pushGroup (f x) x groups) acc xs) = groupSizes acc + length xs"
  by (induction xs arbitrary: acc) (auto simp: pushGroup_sizes)

text \<open>
  Claim C3, as the specification states it, fails: the groups are keyed by the label that
  the host prints for the local date, not by the month and year of the date itself. In New
  York a record of 2024-03-01, which the host reads as midnight UTC, that is 19:00 of 29
  February there, is grouped under \<open>February 2024\<close> together with a record of 2024-02-15;
  and on UTC a record of the year 0 and one of the year 1, both of June, share the group
  \<open>June 1\<close>, the label printing the year 0 as 1 (before the common era).
\<close>

theorem groupedByMonth_counterexample:
  "(groupedByMonth parseISODate newYork [datedRecord ''2024-03-01'', datedRecord ''2024-02-15'']
      = [(''February 2024'', [datedRecord ''2024-03-01'', datedRecord ''2024-02-15''])] \<and>
    dateMonth parseISODate (datedRecord ''2024-03-01'') = Some (2024, 2) \<and>
    dateMonth parseISODate (datedRecord ''2024-02-15'') = Some (2024, 1)) \<and>
   (groupedByMonth parseISODate utcZone [datedRecord ''0000-06-15'', datedRecord ''0001-06-15'']
      = [(''June 1'', [datedRecord ''0000-06-15'', datedRecord ''0001-06-15''])] \<and>
    dateMonth parseISODate (datedRecord ''0000-06-15'') = Some (0, 5) \<and>
    dateMonth parseISODate (datedRecord ''0001-06-15'') = Some (1, 5))"
  by code_simp

text \<open>
  Claim C3, amended. \<open>groupedByMonth\<close> partitions the records by the label \<open>Month Year\<close>
  that the host prints for the local date of each: the keys are the labels of the records
  in first-seen order, the group of a key holds exactly the records of that label, in the
  order of the collection, every record is in the group of its label, no group is empty,
  and the sizes of the groups add up to the length of the collection. Two records with
  valid dates whose local year is 1 or later have the same label exactly when their local
  dates have the same year and the same month.
\<close>

theorem groupedByMonth_amended:
  "map fst (groupedByMonth parse zone R) = firstSeen (map (monthKey parse zone) R) \<and>
   (\<forall>(k, g) \<in> set (groupedByMonth parse zone R).
       g = filter (\<lambda>u. monthKey parse zone u = k) R \<and> g \<noteq> []) \<and>
   (\<forall>u \<in> set R. \<exists>g. (monthKey parse zone u, g) \<in> set (groupedByMonth parse zone R) \<and> u \<in> set g) \<and>
   groupSizes (groupedByMonth parse zone R) = length R \<and>
   (\<forall>u \<in> set R. \<forall>v \<in> set R. commonEra parse zone u \<and> commonEra parse zone v \<longrightarrow>
       (monthKey parse zone u = monthKey parse zone v \<longleftrightarrow>
        calendarMonth parse zone u = calendarMonth parse zone v))"
proof -
  let ?f = "monthKey parse zone"
  have g: "groupedByMonth parse zone R = groupsBy ?f R"
    by (simp add: groupedByMonth_def foldl_pushGroup)
  have 1: "map fst (groupedByMonth parse zone R) = firstSeen (map ?f R)"
    unfolding g groupsBy_def by (simp add: comp_def)
  have 2: "\<forall>(k, g) \<in> set (groupedByMonth parse zone R). g = filter (\<lambda>u. ?f u = k) R \<and> g \<noteq> []"
    unfolding g groupsBy_def by (auto simp: set_firstSeen filter_empty_conv)
  have 3: "\<forall>u \<in> set R. \<exists>g. (?f u, g) \<in> set (groupedByMonth parse zone R) \<and> u \<in> set g"
  proof
    fix u assume u: "u \<in> set R"
    then have "(?f u, filter (\<lambda>v. ?f v = ?f u) R) \<in> set (groupsBy ?f R)"
      unfolding groupsBy_def using u by (auto simp add: set_firstSeen image_iff)
    moreover have "u \<in> set (filter (\<lambda>v. ?f v = ?f u) R)" using u by simp
    ultimately show "\<exists>g. (?f u, g) \<in> set (groupedByMonth parse zone R) \<and> u \<in> set g"
      unfolding g by blast
  qed
  have 4: "groupSizes (groupedByMonth parse zone R) = length R"
    using foldl_pushGroup_sizes [of ?f "[]" R] by (simp add: groupedByMonth_def groupSizes_def)
  have 5: "\<forall>u \<in> set R. \<forall>v \<in> set R. commonEra parse zone u \<and> commonEra parse zone v \<longrightarrow>
       (?f u = ?f v \<longleftrightarrow> calendarMonth parse zone u = calendarMonth parse zone v)"
    using monthKey_calendarMonth by blast
  show ?thesis using 1 2 3 4 5 by blast
qed

theorem groupedByMonth_amended_witness:
  "groupedByMonth parseISODate newYork [record1, record2] = [(''March 2024'', [record1, record2])] \<and>
   map fst (groupedByMonth parseISODate newYork [record1, record2])
     = firstSeen (map (monthKey parseISODate newYork) [record1, record2]) \<and>
   groupSizes (groupedByMonth parseISODate newYork [record1, record2]) = length [record1, record2] \<and>
   commonEra parseISODate newYork record1 \<and> commonEra parseISODate newYork record2 \<and>
   calendarMonth parseISODate newYork record1 = Some (2024, 2) \<and>
   calendarMonth parseISODate newYork record1 = calendarMonth parseISODate newYork record2"
proof -
  have v: "groupedByMonth parseISODate newYork [record1, record2] = [(''March 2024'', [record1, record2])]"
    by code_simp
  have c1: "commonEra parseISODate newYork record1" by code_simp
  have c2: "commonEra parseISODate newYork record2" by code_simp
  have c3: "calendarMonth parseISODate newYork record1 = Some (2024, 2)" by code_simp
  have c4: "monthKey parseISODate newYork record1 = monthKey parseISODate newYork record2" by code_simp
  note T = groupedByMonth_amended [of parseISODate newYork "[record1, record2]"]
  note keys = T [THEN conjunct1]
  note sizes = T [THEN conjunct2, THEN conjunct2, THEN conjunct2, THEN conjunct1]
  note months = T [THEN conjunct2, THEN conjunct2, THEN conjunct2, THEN conjunct2]
  have r1: "record1 \<in> set [record1, record2]" and r2: "record2 \<in> set [record1, record2]"
    by simp_all
  have "calendarMonth parseISODate newYork record1 = calendarMonth parseISODate newYork record2"
    using months [THEN bspec, OF r1, THEN bspec, OF r2] c1 c2 c4 by blast
  then show ?thesis using v keys sizes c1 c2 c3 by blast
qed

section \<open>Setting the day and the hours of a date\<close>




section \<open>The start of the week\<close>

lemma weekStart_le: "weekStart off t \<le> t"
proof -
  have "0 \<le> WeekDay (t + off) * msPerDay" using WeekDay_bounds msPerDay_pos by simp
  moreover have "Day (t + off) * msPerDay \<le> t + off"
    using Day_TimeWithinDay [of "t + off"] TimeWithinDay_bounds [of "t + off"] by linarith
  ultimately show ?thesis by (simp add: weekStart_def algebra_simps)
qed

lemma weekStart_gt: "t < weekStart off t + 7 * msPerDay"
proof -
  have "WeekDay (t + off) * msPerDay \<le> 6 * msPerDay"
    using WeekDay_bounds msPerDay_pos by simp
  moreover have "t + off < Day (t + off) * msPerDay + msPerDay"
    using Day_TimeWithinDay [of "t + off"] TimeWithinDay_bounds [of "t + off"] by linarith
  ultimately show ?thesis by (simp add: weekStart_def algebra_simps)
qed







section \<open>A week without a change of the offset\<close>



text \<open>
  In a host whose offset never changes, every week that is at least seven days inside the
  range of \<open>Date\<close> is such a week.
\<close>

lemma stableWeek_no_transitions:
  assumes "transitions zone = []"
    and "- maxTime + 7 * msPerDay \<le> t" "t \<le> maxTime - 7 * msPerDay"
  shows "stableWeek zone t"
proof -
  have o: "\<And>x. offsetAt zone x = baseOffset zone" by (simp add: offsetAt_def assms(1))
  have l: "\<And>y. offsetLocal zone y = baseOffset zone" by (simp add: offsetLocal_def assms(1))
  have b: "weekStart (baseOffset zone) t \<le> t" "t < weekStart (baseOffset zone) t + 7 * msPerDay"
    by (rule weekStart_le, rule weekStart_gt)
  have "\<bar>weekStart (baseOffset zone) t\<bar> \<le> maxTime"
    using b assms(2,3) unfolding abs_le_iff msPerDay_def maxTime_def by linarith
  moreover have "\<bar>weekStart (baseOffset zone) t + 7 * msPerDay - 1\<bar> \<le> maxTime"
    using b assms(2,3) unfolding abs_le_iff msPerDay_def maxTime_def by linarith
  ultimately show ?thesis by (simp add: stableWeek_def Let_def o l)
qed



section \<open>The ISO string determines the time value\<close>

lemma length_pad [simp]: "length (pad w n) = w"
  by (induction w arbitrary: n) simp_all















section \<open>Week buckets\<close>

text \<open>
  A record whose date is invalid makes \<open>toISOString\<close> throw, and the derivation of the
  buckets with it.
\<close>

lemma getWeekRange_invalid: "start (getWeekRange zone None) = None"
  by (simp add: getWeekRange_def Let_def getDay_def getDate_def num_sub_def setDate_def
      setHours_def)

lemma collectWeeks_invalid:
  assumes "u \<in> set R" "newDate parse (date u) = None"
  shows "collectWeeks parse zone acc R = Inl RangeError"
  using assms
proof (induction R arbitrary: acc)
  case Nil
  then show ?case by simp
next
  case (Cons v R)
  show ?case
  proof (cases "toISOString (start (getWeekRange zone (newDate parse (date v))))")
    case (Inl e)
    then show ?thesis by (cases e) (simp add: Let_def)
  next
    case (Inr k)
    then have "v \<noteq> u" using Cons.prems(2) by (auto simp: getWeekRange_invalid toISOString_def)
    with Cons.prems have "u \<in> set R" by simp
    from Cons.IH [OF this Cons.prems(2)] Inr show ?thesis by (simp add: Let_def)
  qed
qed

lemma availableWeeks_invalid:
  assumes "u \<in> set R" "newDate parse (date u) = None"
  shows "availableWeeks parse zone (Some R) = Inl RangeError"
  by (simp add: availableWeeks_def orEmpty_def collectWeeks_invalid [OF assms])























end
